theory Spec2Isabelle
  imports Complex_Main "HOL-Library.Extended_Nat" "HOL-Library.Sublist"
begin

section \<open>Values, errors and the log\<close>

text \<open>
  The values that travel through \<^verbatim>\<open>config_module\<close> are what \<^verbatim>\<open>json\<close> decodes and
  encodes: \<^verbatim>\<open>None\<close>, booleans, integers, floats, strings, lists and dictionaries with
  string keys. A dictionary is an association list in insertion order whose keys are
  distinct, as a Python \<^verbatim>\<open>dict\<close> is; a float is kept as the rational it denotes.
\<close>

datatype json =
    JNull
  | JBool bool
  | JInt int
  | JFloat rat
  | JStr string
  | JArr "json list"
  | JObj "(string \<times> json) list"

text \<open>
  The exceptions the module can raise or let through, each by its class; \<open>Other\<close> names
  a class that has no constructor of its own.
\<close>

datatype error =
    KeyError string
  | TypeError string
  | AttributeError string
  | JSONDecodeError
  | UnicodeDecodeError
  | UnboundLocalError string
  | FileNotFoundError
  | NotADirectoryError
  | IsADirectoryError
  | FileExistsError
  | PermissionError
  | InvalidURL
  | CancelledError
  | Other string

text \<open>
  Why a sequence of bytes is not the encoding of a JSON value, and the exception with
  which \<^verbatim>\<open>json\<close> says so.
\<close>

datatype malformed = Not_UTF8 | Not_JSON

fun decode_error :: "malformed \<Rightarrow> error" where
  "decode_error Not_UTF8 = UnicodeDecodeError"
| "decode_error Not_JSON = JSONDecodeError"

datatype level = INFO | WARNING | ERROR

text \<open>
  One constructor for each \<^verbatim>\<open>logging\<close> call of the module, holding the values its
  f-string formats.
\<close>

datatype message =
    Failed_to_create_directory string error
  | Config_File_Path string
  | Request_timed_out nat
  | Network_error nat string
  | Waiting_while_Rewst_processes
  | Missing_required_keys nat
  | Not_authorized nat
  | Received_status_code nat int
  | Moving_to_next_retry_phase nat enat

definition REQUIRED_KEYS :: "string list" where
  "REQUIRED_KEYS =
     [''azure_iot_hub_host'', ''device_id'', ''shared_access_key'',
      ''rewst_engine_host'', ''rewst_org_id'']"

subsection \<open>Python's operators on these values\<close>

text \<open>Truth value of an object, as \<^verbatim>\<open>if x:\<close> and \<^verbatim>\<open>x and y\<close> test it.\<close>

fun truthy :: "json \<Rightarrow> bool" where
  "truthy JNull = False"
| "truthy (JBool b) = b"
| "truthy (JInt i) = (i \<noteq> 0)"
| "truthy (JFloat r) = (r \<noteq> 0)"
| "truthy (JStr s) = (s \<noteq> [])"
| "truthy (JArr xs) = (xs \<noteq> [])"
| "truthy (JObj kvs) = (kvs \<noteq> [])"

text \<open>
  \<^verbatim>\<open>key in x\<close> for a string \<^verbatim>\<open>key\<close>: key membership on a dictionary, element
  membership on a list, substring test on a string, and \<^verbatim>\<open>TypeError\<close> on everything
  else.
\<close>

fun py_in :: "string \<Rightarrow> json \<Rightarrow> error + bool" where
  "py_in key (JObj kvs) = Inr (key \<in> set (map fst kvs))"
| "py_in key (JArr xs) = Inr (JStr key \<in> set xs)"
| "py_in key (JStr s) = Inr (sublist key s)"
| "py_in key _ = Inl (TypeError ''argument is not iterable'')"

text \<open>
  \<^verbatim>\<open>all(key in x for key in keys)\<close>: the generator is consumed from the left and
  stops at the first false test; a test that raises ends the evaluation.
\<close>

fun all_in :: "string list \<Rightarrow> json \<Rightarrow> error + bool" where
  "all_in [] x = Inr True"
| "all_in (key # keys) x =
     (case py_in key x of
        Inl e \<Rightarrow> Inl e
      | Inr False \<Rightarrow> Inr False
      | Inr True \<Rightarrow> all_in keys x)"

text \<open>\<^verbatim>\<open>x.get(key)\<close>: only a dictionary has the method.\<close>

fun py_get :: "json \<Rightarrow> string \<Rightarrow> error + json" where
  "py_get (JObj kvs) key = Inr (case map_of kvs key of None \<Rightarrow> JNull | Some v \<Rightarrow> v)"
| "py_get _ key = Inl (AttributeError ''get'')"

text \<open>\<^verbatim>\<open>x[key]\<close> for a string \<^verbatim>\<open>key\<close>.\<close>

fun py_subscript :: "json \<Rightarrow> string \<Rightarrow> error + json" where
  "py_subscript (JObj kvs) key =
     (case map_of kvs key of None \<Rightarrow> Inl (KeyError key) | Some v \<Rightarrow> Inr v)"
| "py_subscript (JArr xs) key = Inl (TypeError ''list indices must be integers'')"
| "py_subscript (JStr s) key = Inl (TypeError ''string indices must be integers'')"
| "py_subscript _ key = Inl (TypeError ''object is not subscriptable'')"

text \<open>Truth value of an optional string argument (\<^verbatim>\<open>None\<close> or a \<^verbatim>\<open>str\<close>).\<close>

fun given :: "string option \<Rightarrow> bool" where
  "given None = False"
| "given (Some s) = (s \<noteq> [])"

section \<open>Fetching the configuration\<close>

text \<open>
  What the collaborators of \<^verbatim>\<open>fetch_configuration\<close> report on the machine; each
  field is named after the call that yields it.
\<close>

record host =
  version :: string
  sys_executable :: string
  gethostname :: string
  get_mac_address :: string
  platform_platform :: string
  platform_processor :: string
  virtual_memory_total :: nat
  is_domain_controller :: bool
  is_entra_connect_server :: bool
  get_ad_domain_name :: "string option"
  get_entra_domain :: "string option"

fun optional :: "string option \<Rightarrow> json" where
  "optional None = JNull"
| "optional (Some s) = JStr s"

definition host_info :: "host \<Rightarrow> (string \<times> json) list" where
  "host_info h =
     [(''agent_version'', JStr (version h)),
      (''executable_path'', JStr (sys_executable h)),
      (''hostname'', JStr (gethostname h)),
      (''mac_address'', JStr (get_mac_address h)),
      (''operating_system'', JStr (platform_platform h)),
      (''cpu_model'', JStr (platform_processor h)),
      (''ram_gb'', JFloat (of_nat (virtual_memory_total h) / 1024 ^ 3)),
      (''is_ad_domain_controller'', JBool (is_domain_controller h)),
      (''is_entra_connect_server'', JBool (is_entra_connect_server h)),
      (''ad_domain'', optional (get_ad_domain_name h)),
      (''entra_domain'', optional (get_entra_domain h))]"

text \<open>
  \<^verbatim>\<open>headers = {}\<close>, then \<^verbatim>\<open>if secret: headers['x-rewst-secret'] = secret\<close>.
\<close>

definition make_headers :: "string option \<Rightarrow> (string \<times> string) list" where
  "make_headers secret =
     (if given secret then [(''x-rewst-secret'', the secret)] else [])"

text \<open>
  A request as \<^verbatim>\<open>client.post\<close> receives it, and what one call of it can do: raise
  \<^verbatim>\<open>httpx.TimeoutException\<close>, raise another \<^verbatim>\<open>httpx.RequestError\<close>, raise an
  exception that is no \<^verbatim>\<open>httpx.RequestError\<close> (\<^verbatim>\<open>httpx.InvalidURL\<close> for a malformed
  URL, \<^verbatim>\<open>asyncio.CancelledError\<close> when the task is cancelled), or return a response.
  A response is its status code and what \<^verbatim>\<open>response.json()\<close> does with its body:
  raise for a body that does not decode, or yield the decoded value. A cancellation
  that arrives while the call sleeps is not part of the model.
\<close>

record request =
  url :: string
  body :: "(string \<times> json) list"
  headers :: "(string \<times> string) list"

datatype outcome =
    TimeoutException
  | RequestError string
  | Raises error
  | Response int "malformed + json"

text \<open>What the caller and the outside world can observe, in the order it happens.\<close>

datatype event =
    Post request
  | Log level message
  | Sleep nat

text \<open>
  How an attempt leaves the body of the \<^verbatim>\<open>while\<close> loop: by \<^verbatim>\<open>continue\<close>, by
  \<^verbatim>\<open>return\<close>, by an exception, or by reaching the \<^verbatim>\<open>asyncio.sleep\<close> that ends the
  body.
\<close>

datatype exit = Continue | Return json | Raise error | Fall_through

fun check_response :: "nat \<Rightarrow> int \<Rightarrow> malformed + json \<Rightarrow> exit \<times> event list" where
  "check_response retries status_code js =
     (if status_code = 303 then
        (Fall_through, [Log INFO Waiting_while_Rewst_processes])
      else if status_code = 200 then
        (case js of
           Inl m \<Rightarrow> (Raise (decode_error m), [])
         | Inr data \<Rightarrow>
             (case py_get data ''configuration'' of
                Inl e \<Rightarrow> (Raise e, [])
              | Inr config_data \<Rightarrow>
                  (if truthy config_data then
                     (case all_in REQUIRED_KEYS config_data of
                        Inl e \<Rightarrow> (Raise e, [])
                      | Inr True \<Rightarrow> (Return config_data, [])
                      | Inr False \<Rightarrow>
                          (Fall_through, [Log WARNING (Missing_required_keys retries)]))
                   else (Fall_through, [Log WARNING (Missing_required_keys retries)]))))
      else if status_code = 400 \<or> status_code = 401 then
        (Fall_through, [Log ERROR (Not_authorized retries)])
      else
        (Fall_through, [Log WARNING (Received_status_code retries status_code)]))"

fun attempt :: "nat \<Rightarrow> outcome \<Rightarrow> exit \<times> event list" where
  "attempt retries TimeoutException = (Continue, [Log WARNING (Request_timed_out retries)])"
| "attempt retries (RequestError e) = (Continue, [Log WARNING (Network_error retries e)])"
| "attempt retries (Raises e) = (Raise e, [])"
| "attempt retries (Response status_code js) = check_response retries status_code js"

text \<open>
  The state of a call when the outcomes known so far are used up: it has returned a
  value, it has raised, or it is still in the loop, waiting for the answer to the
  request it sent last.
\<close>

datatype status = Returned json | Raised error | Pending

fun emit :: "event list \<Rightarrow> status \<times> event list \<Rightarrow> status \<times> event list" where
  "emit evs (st, evs') = (st, evs @ evs')"

text \<open>
  The two nested loops. The list of phases is what the \<^verbatim>\<open>for\<close> loop still has to
  visit, its head being the phase of the running \<^verbatim>\<open>while\<close> loop; \<open>retries\<close> is the
  counter of that loop; the outcomes are those of the coming calls of
  \<^verbatim>\<open>client.post\<close>, in order. After the last phase the module calls
  \<^verbatim>\<open>logging.INFO\<close>, which is the integer 20.
\<close>

fun retry_loop ::
  "request \<Rightarrow> (nat \<times> enat) list \<Rightarrow> nat \<Rightarrow> outcome list \<Rightarrow> status \<times> event list" where
  "retry_loop req [] retries outs = (Raised (TypeError ''int object is not callable''), [])"
| "retry_loop req ((interval, max_retries) # phases) retries outs =
     (if enat retries < max_retries then
        (case outs of
           [] \<Rightarrow> (Pending, [Post req])
         | out # outs' \<Rightarrow>
             (case attempt (Suc retries) out of
                (Continue, evs) \<Rightarrow>
                  emit (Post req # evs)
                    (retry_loop req ((interval, max_retries) # phases) (Suc retries) outs')
              | (Return config_data, evs) \<Rightarrow> (Returned config_data, Post req # evs)
              | (Raise e, evs) \<Rightarrow> (Raised e, Post req # evs)
              | (Fall_through, evs) \<Rightarrow>
                  emit (Post req # evs @ [Sleep interval])
                    (retry_loop req ((interval, max_retries) # phases) (Suc retries) outs')))
      else
        emit [Log INFO (Moving_to_next_retry_phase interval max_retries)]
          (retry_loop req phases 0 outs))"

definition retry_intervals :: "(nat \<times> enat) list" where
  "retry_intervals = [(5, 12), (60, 60), (300, \<infinity>)]"

definition fetch_configuration ::
  "host \<Rightarrow> string \<Rightarrow> string option \<Rightarrow> outcome list \<Rightarrow> status \<times> event list" where
  "fetch_configuration h config_url secret outs =
     retry_loop \<lparr>url = config_url, body = host_info h, headers = make_headers secret\<rparr>
       retry_intervals 0 outs"

text \<open>Observations on a trace: the requests sent, the sleeps, the changes of phase.\<close>

fun posts :: "event list \<Rightarrow> request list" where
  "posts [] = []"
| "posts (Post r # evs) = r # posts evs"
| "posts (_ # evs) = posts evs"

fun sleeps :: "event list \<Rightarrow> nat list" where
  "sleeps [] = []"
| "sleeps (Sleep n # evs) = n # sleeps evs"
| "sleeps (_ # evs) = sleeps evs"

fun phase_moves :: "event list \<Rightarrow> nat" where
  "phase_moves [] = 0"
| "phase_moves (Log l (Moving_to_next_retry_phase i m) # evs) = Suc (phase_moves evs)"
| "phase_moves (_ # evs) = phase_moves evs"

text \<open>
  The outcomes that the specification calls retry-worthy, written from its list and not
  from the loop: a timeout or another transport failure, status 303, status 400 or 401,
  any other status that is not 200, and status 200 with a JSON object whose
  \<^verbatim>\<open>configuration\<close> is missing required keys. The last case is read as widely as the
  code allows without raising: the entry is absent, or its value is false in Python's
  sense (null, false, zero, empty), or it is a string, list or object in which some
  required key is not found.
\<close>

fun lacks_required_keys :: "json \<Rightarrow> bool" where
  "lacks_required_keys JNull = True"
| "lacks_required_keys (JBool b) = (\<not> b)"
| "lacks_required_keys (JInt i) = (i = 0)"
| "lacks_required_keys (JFloat r) = (r = 0)"
| "lacks_required_keys (JStr s) = (\<exists>k \<in> set REQUIRED_KEYS. \<not> sublist k s)"
| "lacks_required_keys (JArr xs) = (\<exists>k \<in> set REQUIRED_KEYS. JStr k \<notin> set xs)"
| "lacks_required_keys (JObj kvs) = (\<exists>k \<in> set REQUIRED_KEYS. k \<notin> fst ` set kvs)"


fun retry_worthy :: "outcome \<Rightarrow> bool" where
  "retry_worthy TimeoutException = True"
| "retry_worthy (RequestError e) = True"
| "retry_worthy (Raises e) = False"
| "retry_worthy (Response status_code js) =
     (status_code \<noteq> 200 \<or>
      (case js of
         Inr (JObj kvs) \<Rightarrow>
           (case map_of kvs ''configuration'' of
              None \<Rightarrow> True
            | Some config_data \<Rightarrow> lacks_required_keys config_data)
       | _ \<Rightarrow> False))"


section \<open>Storing the configuration\<close>

text \<open>
  The file system is a tree. An entry is named by its components from the root, the
  root being a directory; \<open>nodes\<close> tells what lies at a list of components: nothing, a
  directory, or a file with its bytes. \<open>denied\<close> holds the permissions that are
  refused: \<open>Searching\<close> a directory (going through it to an entry below), \<open>Writing\<close>
  a directory (adding an entry to it) or a file, \<open>Reading\<close> a file. The walk to an
  entry and the errors it ends with are those of a POSIX system; links are not part of
  the model. The log of the module is part of the world.
\<close>

datatype node = Dir | File string

datatype access = Searching | Reading | Writing

record world =
  nodes :: "string list \<Rightarrow> node option"
  denied :: "access \<Rightarrow> string list \<Rightarrow> bool"
  logged :: "(level \<times> message) list"

text \<open>
  What the module takes from the platform and from its libraries:
  \<^verbatim>\<open>platform.system()\<close>, \<^verbatim>\<open>os.environ.get('PROGRAMDATA')\<close>, \<^verbatim>\<open>os.path.join\<close> on its
  arguments, \<^verbatim>\<open>os.path.expanduser\<close>, the text an f-string puts for a value, the
  components of the entry that the operating system looks up for a path string (the
  working directory and the separators of the platform are in this function), the bytes
  that \<^verbatim>\<open>json.dump(v, f, indent=4)\<close> puts into the file for a value, and what
  \<^verbatim>\<open>json.load(f)\<close> makes of the bytes of a file.
\<close>

record runtime =
  platform_system :: string
  environ_PROGRAMDATA :: "string option"
  os_path_join :: "string list \<Rightarrow> string"
  os_path_expanduser :: "string \<Rightarrow> string"
  format_value :: "json \<Rightarrow> string"
  path_components :: "string \<Rightarrow> string list"
  json_dumps :: "json \<Rightarrow> string"
  json_loads :: "string \<Rightarrow> malformed + json"

definition logging :: "level \<Rightarrow> message \<Rightarrow> world \<Rightarrow> world" where
  "logging l m w = w\<lparr>logged := logged w @ [(l, m)]\<rparr>"

definition node_at :: "world \<Rightarrow> string list \<Rightarrow> node option" where
  "node_at w cs = (if cs = [] then Some Dir else nodes w cs)"

text \<open>
  The walk of the operating system from the directory \<open>dir\<close> down the components that
  are left, up to the parent of the last one: a parent that is missing ends the walk
  with \<^verbatim>\<open>ENOENT\<close>, one that is a file with \<^verbatim>\<open>ENOTDIR\<close>, one that may not be searched
  with \<^verbatim>\<open>EACCES\<close>.
\<close>

fun traverse :: "world \<Rightarrow> string list \<Rightarrow> string list \<Rightarrow> error option" where
  "traverse w dir [] = None"
| "traverse w dir (c # cs) =
     (case node_at w dir of
        None \<Rightarrow> Some FileNotFoundError
      | Some (File bytes) \<Rightarrow> Some NotADirectoryError
      | Some Dir \<Rightarrow>
          if denied w Searching dir then Some PermissionError
          else traverse w (dir @ [c]) cs)"

definition lookup :: "world \<Rightarrow> string list \<Rightarrow> error + node option" where
  "lookup w cs = (case traverse w [] cs of Some e \<Rightarrow> Inl e | None \<Rightarrow> Inr (node_at w cs))"

text \<open>\<^verbatim>\<open>os.path.exists\<close> is false as well when the walk to the entry fails.\<close>

definition exists_at :: "world \<Rightarrow> string list \<Rightarrow> bool" where
  "exists_at w cs = (case lookup w cs of Inr (Some n) \<Rightarrow> True | _ \<Rightarrow> False)"

definition os_path_exists :: "runtime \<Rightarrow> world \<Rightarrow> string \<Rightarrow> bool" where
  "os_path_exists rt w p = exists_at w (path_components rt p)"

text \<open>
  \<^verbatim>\<open>os.mkdir\<close> and \<^verbatim>\<open>os.makedirs\<close> give the exception they raise, if any, and the
  world they leave: directories made before a failure stay.
\<close>

definition os_mkdir :: "world \<Rightarrow> string list \<Rightarrow> error option \<times> world" where
  "os_mkdir w cs =
     (case lookup w cs of
        Inl e \<Rightarrow> (Some e, w)
      | Inr (Some n) \<Rightarrow> (Some FileExistsError, w)
      | Inr None \<Rightarrow>
          if denied w Writing (butlast cs) then (Some PermissionError, w)
          else (None, w\<lparr>nodes := (nodes w)(cs \<mapsto> Dir)\<rparr>))"

text \<open>
  \<^verbatim>\<open>os.makedirs(name)\<close>: when the parent of the entry does not exist, it is made
  first, by the same function, and a \<^verbatim>\<open>FileExistsError\<close> from there is passed over;
  then the entry itself is made with \<^verbatim>\<open>mkdir\<close>.
\<close>

function os_makedirs :: "world \<Rightarrow> string list \<Rightarrow> error option \<times> world" where
  "os_makedirs w cs =
     (if cs \<noteq> [] \<and> \<not> exists_at w (butlast cs) then
        (case os_makedirs w (butlast cs) of
           (None, w') \<Rightarrow> os_mkdir w' cs
         | (Some e, w') \<Rightarrow> if e = FileExistsError then os_mkdir w' cs else (Some e, w'))
      else os_mkdir w cs)"
  by pat_completeness auto

termination
  by (relation "measure (\<lambda>(w, cs). length cs)") auto

text \<open>\<^verbatim>\<open>open(p)\<close> followed by reading all the bytes.\<close>

definition open_read :: "runtime \<Rightarrow> world \<Rightarrow> string \<Rightarrow> error + string" where
  "open_read rt w p =
     (let cs = path_components rt p in
      case lookup w cs of
        Inl e \<Rightarrow> Inl e
      | Inr None \<Rightarrow> Inl FileNotFoundError
      | Inr (Some Dir) \<Rightarrow> Inl IsADirectoryError
      | Inr (Some (File bytes)) \<Rightarrow>
          if denied w Reading cs then Inl PermissionError else Inr bytes)"

text \<open>
  \<^verbatim>\<open>open(p, 'w')\<close>: a file that exists is truncated, one that does not is added to its
  parent.
\<close>

definition open_write :: "runtime \<Rightarrow> world \<Rightarrow> string \<Rightarrow> error + world" where
  "open_write rt w p =
     (let cs = path_components rt p in
      case lookup w cs of
        Inl e \<Rightarrow> Inl e
      | Inr (Some Dir) \<Rightarrow> Inl IsADirectoryError
      | Inr (Some (File bytes)) \<Rightarrow>
          if denied w Writing cs then Inl PermissionError
          else Inr (w\<lparr>nodes := (nodes w)(cs \<mapsto> File [])\<rparr>)
      | Inr None \<Rightarrow>
          if denied w Writing (butlast cs) then Inl PermissionError
          else Inr (w\<lparr>nodes := (nodes w)(cs \<mapsto> File [])\<rparr>))"

text \<open>\<^verbatim>\<open>json.dump(v, f, indent=4)\<close> on the file just opened at \<open>p\<close>, and its closing.\<close>

definition json_dump :: "runtime \<Rightarrow> json \<Rightarrow> string \<Rightarrow> world \<Rightarrow> world" where
  "json_dump rt v p w = w\<lparr>nodes := (nodes w)(path_components rt p \<mapsto> File (json_dumps rt v))\<rparr>"

definition json_load :: "runtime \<Rightarrow> string \<Rightarrow> error + json" where
  "json_load rt bytes =
     (case json_loads rt bytes of Inl m \<Rightarrow> Inl (decode_error m) | Inr v \<Rightarrow> Inr v)"

text \<open>
  The directory of the configuration on each platform. On Windows \<^verbatim>\<open>os.path.join\<close>
  rejects an argument that is not a string; on a platform that is none of the three,
  \<^verbatim>\<open>config_dir\<close> is read before it is bound.
\<close>

definition config_dir_of :: "runtime \<Rightarrow> json \<Rightarrow> error + string" where
  "config_dir_of rt org_id =
     (if platform_system rt = ''Windows'' then
        (case environ_PROGRAMDATA rt of
           None \<Rightarrow> Inl (TypeError ''expected str, bytes or os.PathLike object'')
         | Some programdata \<Rightarrow>
             (if truthy org_id then
                (case org_id of
                   JStr s \<Rightarrow> Inr (os_path_join rt [programdata, ''RewstRemoteAgent'', s])
                 | _ \<Rightarrow> Inl (TypeError ''expected str, bytes or os.PathLike object''))
              else Inr (os_path_join rt [programdata, ''RewstRemoteAgent'', []])))
      else if platform_system rt = ''Linux'' then
        Inr (''/etc/rewst_remote_agent/'' @ format_value rt org_id)
      else if platform_system rt = ''Darwin'' then
        Inr (os_path_expanduser rt
               (''~/Library/Application Support/RewstRemoteAgent/'' @ format_value rt org_id))
      else Inl (UnboundLocalError ''config_dir''))"

definition get_config_file_path ::
  "runtime \<Rightarrow> world \<Rightarrow> json \<Rightarrow> string option \<Rightarrow> (error + string) \<times> world" where
  "get_config_file_path rt w org_id config_file =
     (if given config_file then (Inr (the config_file), w)
      else
        (case config_dir_of rt org_id of
           Inl e \<Rightarrow> (Inl e, w)
         | Inr config_dir \<Rightarrow>
             (case (if \<not> os_path_exists rt w config_dir
                    then os_makedirs w (path_components rt config_dir) else (None, w)) of
                (Some e, w') \<Rightarrow>
                  (Inl e, logging ERROR (Failed_to_create_directory config_dir e) w')
              | (None, w') \<Rightarrow>
                  (let config_file_path = os_path_join rt [config_dir, ''config.json'']
                   in (Inr config_file_path,
                       logging INFO (Config_File_Path config_file_path) w')))))"

definition save_configuration ::
  "runtime \<Rightarrow> world \<Rightarrow> json \<Rightarrow> string option \<Rightarrow> (error + unit) \<times> world" where
  "save_configuration rt w config_data config_file =
     (case py_subscript config_data ''rewst_org_id'' of
        Inl e \<Rightarrow> (Inl e, w)
      | Inr org_id \<Rightarrow>
          (case get_config_file_path rt w org_id config_file of
             (Inl e, w') \<Rightarrow> (Inl e, w')
           | (Inr config_file_path, w') \<Rightarrow>
               (case open_write rt w' config_file_path of
                  Inl e \<Rightarrow> (Inl e, w')
                | Inr w'' \<Rightarrow> (Inr (), json_dump rt config_data config_file_path w''))))"

text \<open>
  \<^verbatim>\<open>load_configuration\<close> returns the decoded value, or \<^verbatim>\<open>None\<close> (here \<open>JNull\<close>)
  from the handler of \<^verbatim>\<open>FileNotFoundError\<close>; any other exception passes through.
\<close>

fun except_FileNotFoundError :: "error + json \<Rightarrow> error + json" where
  "except_FileNotFoundError (Inl FileNotFoundError) = Inr JNull"
| "except_FileNotFoundError r = r"

definition load_configuration ::
  "runtime \<Rightarrow> world \<Rightarrow> json \<Rightarrow> string option \<Rightarrow> (error + json) \<times> world" where
  "load_configuration rt w org_id config_file =
     (case get_config_file_path rt w org_id config_file of
        (Inl e, w') \<Rightarrow> (Inl e, w')
      | (Inr config_file_path, w') \<Rightarrow>
          (except_FileNotFoundError
             (case open_read rt w' config_file_path of
                Inl e \<Rightarrow> Inl e
              | Inr bytes \<Rightarrow> json_load rt bytes),
           w'))"

text \<open>
  One world extends another when it keeps its permissions and every entry it has.
\<close>

definition extends :: "world \<Rightarrow> world \<Rightarrow> bool" where
  "extends w w' =
     (denied w' = denied w \<and> (\<forall>cs n. nodes w cs = Some n \<longrightarrow> nodes w' cs = Some n))"

section \<open>Sample inputs\<close>

definition sample_host :: host where
  "sample_host =
     \<lparr>version = ''0.9.1'', sys_executable = ''/usr/bin/python3'', gethostname = ''build-07'',
      get_mac_address = ''0242ac110002'', platform_platform = ''Linux-6.1-x86_64'',
      platform_processor = ''x86_64'', virtual_memory_total = 8589934592,
      is_domain_controller = False, is_entra_connect_server = False,
      get_ad_domain_name = None, get_entra_domain = None\<rparr>"

definition sample_request :: "string option \<Rightarrow> request" where
  "sample_request secret =
     \<lparr>url = ''https://engine.example/hook'', body = host_info sample_host,
      headers = make_headers secret\<rparr>"

definition sample_config :: "(string \<times> json) list" where
  "sample_config =
     [(''azure_iot_hub_host'', JStr ''hub.example''), (''device_id'', JStr ''dev-1''),
      (''shared_access_key'', JStr ''k''), (''rewst_engine_host'', JStr ''engine.example''),
      (''rewst_org_id'', JStr ''acme'')]"

text \<open>
  The bytes that \<^verbatim>\<open>json.dump(v, f, indent=4)\<close> writes for the sample configuration:
  seven lines without a final line feed, the entries indented by four spaces.
\<close>

definition line :: "string \<Rightarrow> string \<Rightarrow> string \<Rightarrow> string" where
  "line key val end =
     ''    '' @ [CHR 0x22] @ key @ [CHR 0x22] @ '': '' @ [CHR 0x22] @ val @ [CHR 0x22] @
     end @ [CHR 0x0A]"

definition sample_text :: string where
  "sample_text =
     ''{'' @ [CHR 0x0A] @
     line ''azure_iot_hub_host'' ''hub.example'' '','' @
     line ''device_id'' ''dev-1'' '','' @
     line ''shared_access_key'' ''k'' '','' @
     line ''rewst_engine_host'' ''engine.example'' '','' @
     line ''rewst_org_id'' ''acme'' [] @
     ''}''"

text \<open>
  A platform for the samples: Linux, with a join that puts one slash between parts
  (enough for parts that neither begin nor end with a slash), an f-string that prints a
  string as it is and, of the other values, only \<^verbatim>\<open>None\<close> faithfully, paths split at
  the slashes and taken from the root, and the \<^verbatim>\<open>json\<close> library on the one value and
  the two texts the samples use: elsewhere this stand-in writes nothing and decodes
  nothing.
\<close>

definition posix_join :: "string list \<Rightarrow> string" where
  "posix_join parts = foldl (\<lambda>path b. if path = [] then b else path @ ''/'' @ b) [] parts"

fun components_from :: "string \<Rightarrow> string \<Rightarrow> string list" where
  "components_from part [] = (if part = [] then [] else [part])"
| "components_from part (c # cs) =
     (if c = CHR ''/'' then (if part = [] then [] else [part]) @ components_from [] cs
      else components_from (part @ [c]) cs)"

definition sample_runtime :: runtime where
  "sample_runtime =
     \<lparr>platform_system = ''Linux'', environ_PROGRAMDATA = None, os_path_join = posix_join,
      os_path_expanduser = (\<lambda>p. p),
      format_value = (\<lambda>v. case v of JStr s \<Rightarrow> s | _ \<Rightarrow> ''None''),
      path_components = components_from [],
      json_dumps = (\<lambda>v. if v = JObj sample_config then sample_text else []),
      json_loads = (\<lambda>bytes. if bytes = sample_text then Inr (JObj sample_config)
                           else if bytes = ''null'' then Inr JNull else Inl Not_JSON)\<rparr>"

definition empty_world :: world where
  "empty_world = \<lparr>nodes = (\<lambda>cs. None), denied = (\<lambda>a cs. False), logged = []\<rparr>"

text \<open>A world with the directory \<^verbatim>\<open>/etc\<close> and nothing else.\<close>

definition etc_world :: world where
  "etc_world = \<lparr>nodes = [[''etc''] \<mapsto> Dir], denied = (\<lambda>a cs. False), logged = []\<rparr>"

text \<open>
  A world with the directory \<^verbatim>\<open>/tmp\<close> and two files in it: \<^verbatim>\<open>config.json\<close> with the
  JSON text \<^verbatim>\<open>null\<close>, and the empty file \<^verbatim>\<open>blocker\<close>.
\<close>

definition null_file_world :: world where
  "null_file_world =
     \<lparr>nodes = [[''tmp''] \<mapsto> Dir, [''tmp'', ''config.json''] \<mapsto> File ''null'',
               [''tmp'', ''blocker''] \<mapsto> File []],
      denied = (\<lambda>a cs. False), logged = []\<rparr>"


text \<open>
  The world that saving the sample configuration leaves, from the world with \<^verbatim>\<open>/etc\<close>
  alone and without an override.
\<close>

definition saved_world :: world where
  "saved_world =
     \<lparr>nodes = [[''etc''] \<mapsto> Dir, [''etc'', ''rewst_remote_agent''] \<mapsto> Dir,
               [''etc'', ''rewst_remote_agent'', ''acme''] \<mapsto> Dir,
               [''etc'', ''rewst_remote_agent'', ''acme'', ''config.json''] \<mapsto>
                 File sample_text],
      denied = (\<lambda>a cs. False),
      logged = [(INFO, Config_File_Path ''/etc/rewst_remote_agent/acme/config.json'')]\<rparr>"

section \<open>Properties of the retry loop\<close>

lemma enat_less_numeral [simp]: "enat n < numeral k \<longleftrightarrow> n < numeral k"
  by (simp add: numeral_eq_enat)

lemma all_in_dict: "all_in keys (JObj kvs) = Inr (set keys \<subseteq> fst ` set kvs)"
  by (induction keys) (auto split: bool.splits)

lemma all_in_list: "all_in keys (JArr xs) = Inr (\<forall>k \<in> set keys. JStr k \<in> set xs)"
  by (induction keys) (auto split: bool.splits)

lemma all_in_string: "all_in keys (JStr t) = Inr (\<forall>k \<in> set keys. sublist k t)"
  by (induction keys) (auto split: bool.splits)


lemma py_get_error: "py_get x k = Inl e \<Longrightarrow> e = AttributeError ''get''"
  by (cases x) auto

text \<open>
  The equation of the loop is taken out of the simplifier; each way through one round
  of the loop is a rule of its own.
\<close>

lemmas retry_loop_eq = retry_loop.simps(2)

declare retry_loop.simps(2) [simp del]

lemma retry_loop_exhausted:
  "\<not> enat retries < max_retries \<Longrightarrow>
   retry_loop req ((interval, max_retries) # phases) retries outs =
     emit [Log INFO (Moving_to_next_retry_phase interval max_retries)]
       (retry_loop req phases 0 outs)"
  by (simp add: retry_loop_eq)

lemma retry_loop_pending:
  "enat retries < max_retries \<Longrightarrow>
   retry_loop req ((interval, max_retries) # phases) retries [] = (Pending, [Post req])"
  by (simp add: retry_loop_eq)

lemma retry_loop_continue:
  "enat retries < max_retries \<Longrightarrow> attempt (Suc retries) out = (Continue, evs) \<Longrightarrow>
   retry_loop req ((interval, max_retries) # phases) retries (out # outs) =
     emit (Post req # evs) (retry_loop req ((interval, max_retries) # phases) (Suc retries) outs)"
  by (simp add: retry_loop_eq)

lemma retry_loop_fall_through:
  "enat retries < max_retries \<Longrightarrow> attempt (Suc retries) out = (Fall_through, evs) \<Longrightarrow>
   retry_loop req ((interval, max_retries) # phases) retries (out # outs) =
     emit (Post req # evs @ [Sleep interval])
       (retry_loop req ((interval, max_retries) # phases) (Suc retries) outs)"
  by (simp add: retry_loop_eq)

lemma retry_loop_return:
  "enat retries < max_retries \<Longrightarrow> attempt (Suc retries) out = (Return c, evs) \<Longrightarrow>
   retry_loop req ((interval, max_retries) # phases) retries (out # outs) =
     (Returned c, Post req # evs)"
  by (simp add: retry_loop_eq)

lemma retry_loop_raise:
  "enat retries < max_retries \<Longrightarrow> attempt (Suc retries) out = (Raise e, evs) \<Longrightarrow>
   retry_loop req ((interval, max_retries) # phases) retries (out # outs) =
     (Raised e, Post req # evs)"
  by (simp add: retry_loop_eq)

lemma fst_emit [simp]: "fst (emit evs r) = fst r"
  by (cases r) simp

subsection \<open>What one attempt can do\<close>

lemma attempt_valid:
  "set REQUIRED_KEYS \<subseteq> fst ` set kvs \<Longrightarrow>
   attempt n (Response 200 (Inr (JObj [(''configuration'', JObj kvs)]))) =
     (Return (JObj kvs), [])"
  by (auto simp add: all_in_dict REQUIRED_KEYS_def)




text \<open>
  The outcomes that the specification lists as retry-worthy are retried: the attempt
  neither returns nor raises. After a failure of transport it leaves the round by
  \<^verbatim>\<open>continue\<close>, after a response it reaches the sleep.
\<close>

lemma lacks_required_keys_retried:
  "lacks_required_keys c \<Longrightarrow> \<not> truthy c \<or> all_in REQUIRED_KEYS c = Inr False"
  by (cases c) (auto simp add: all_in_dict all_in_list all_in_string)

lemma attempt_retry_worthy:
  assumes "retry_worthy out"
  shows "fst (attempt n out) =
           (case out of Response status_code js \<Rightarrow> Fall_through | _ \<Rightarrow> Continue)"
proof (cases out)
  case (Response status_code js)
  show ?thesis
  proof (cases "status_code = 200")
    case False
    with Response show ?thesis by simp
  next
    case True
    with assms Response obtain kvs where js: "js = Inr (JObj kvs)"
      and l: "case map_of kvs ''configuration'' of None \<Rightarrow> True
              | Some config_data \<Rightarrow> lacks_required_keys config_data"
      by (auto split: sum.splits json.splits)
    let ?c = "case map_of kvs ''configuration'' of None \<Rightarrow> JNull | Some v \<Rightarrow> v"
    from l have "lacks_required_keys ?c" by (cases "map_of kvs ''configuration''") auto
    from lacks_required_keys_retried [OF this] Response True js show ?thesis
      by auto
  qed
qed (use assms in auto)

lemma attempt_fall_through_log:
  "fst (attempt n out) = Fall_through \<Longrightarrow> \<exists>l m. snd (attempt n out) = [Log l m]"
  by (cases out) (auto split: sum.splits bool.splits if_splits)

text \<open>So a retry-worthy response is followed by one log entry and the sleep of the phase.\<close>

lemma retry_worthy_response_sleeps:
  assumes "enat retries < max_retries" and "retry_worthy (Response status_code js)"
  shows "\<exists>l m.
           retry_loop req ((interval, max_retries) # phases) retries
             (Response status_code js # outs) =
           emit [Post req, Log l m, Sleep interval]
             (retry_loop req ((interval, max_retries) # phases) (Suc retries) outs)"
proof -
  from attempt_retry_worthy [OF assms(2), of "Suc retries"]
  have f: "fst (attempt (Suc retries) (Response status_code js)) = Fall_through" by simp
  from attempt_fall_through_log [OF f]
  obtain l m where "snd (attempt (Suc retries) (Response status_code js)) = [Log l m]" by blast
  with f have "attempt (Suc retries) (Response status_code js) = (Fall_through, [Log l m])"
    by (cases "attempt (Suc retries) (Response status_code js)") simp
  from retry_loop_fall_through [OF assms(1) this] show ?thesis by auto
qed

subsection \<open>Observations on traces\<close>

lemma posts_append [simp]: "posts (evs @ evs') = posts evs @ posts evs'"
  by (induction evs rule: posts.induct) auto

lemma sleeps_append [simp]: "sleeps (evs @ evs') = sleeps evs @ sleeps evs'"
  by (induction evs rule: sleeps.induct) auto

lemma phase_moves_append [simp]:
  "phase_moves (evs @ evs') = phase_moves evs + phase_moves evs'"
  by (induction evs rule: phase_moves.induct) auto

lemma posts_rounds:
  "posts (concat (replicate n [Post req, Log l m, Sleep i])) = replicate n req"
  by (induction n) auto

lemma sleeps_rounds:
  "sleeps (concat (replicate n [Post req, Log l m, Sleep i])) = replicate n i"
  by (induction n) auto

lemma phase_moves_rounds:
  "phase_moves
     (concat (replicate n [Post req, Log INFO Waiting_while_Rewst_processes, Sleep i])) = 0"
  by (induction n) auto

lemma posts_attempt [simp]: "posts (snd (attempt n out)) = []"
  by (cases out) (auto split: option.splits sum.splits bool.splits)

lemma posts_emit: "posts (snd (emit evs r)) = posts evs @ posts (snd r)"
  by (cases r) simp



text \<open>Every request of a call is the one request built before the loop.\<close>

lemma posts_retry_loop: "set (posts (snd (retry_loop req phases retries outs))) \<subseteq> {req}"
proof (induction req phases retries outs rule: retry_loop.induct)
  case (1 req retries outs)
  show ?case by simp
next
  case (2 req interval max_retries phases retries outs)
  show ?case
  proof (cases "enat retries < max_retries")
    case False
    with 2 show ?thesis by (simp add: retry_loop_exhausted posts_emit)
  next
    case lt: True
    show ?thesis
    proof (cases outs)
      case Nil
      with lt show ?thesis by (simp add: retry_loop_pending)
    next
      case (Cons out outs')
      obtain x evs where a: "attempt (Suc retries) out = (x, evs)"
        by (cases "attempt (Suc retries) out")
      have p: "posts evs = []" using posts_attempt [of "Suc retries" out] a by simp
      show ?thesis
      proof (cases x)
        case Continue
        with 2(1) [OF lt Cons] a lt Cons p show ?thesis
          by (simp add: retry_loop_continue posts_emit)
      next
        case (Return c)
        with a lt Cons p show ?thesis by (simp add: retry_loop_return)
      next
        case (Raise e)
        with a lt Cons p show ?thesis by (simp add: retry_loop_raise)
      next
        case Fall_through
        with 2(2) [OF lt Cons] a lt Cons p show ?thesis
          by (simp add: retry_loop_fall_through posts_emit)
      qed
    qed
  qed
qed

lemma posts_fetch:
  "r \<in> set (posts (snd (fetch_configuration h u s outs))) \<Longrightarrow>
   r = \<lparr>url = u, body = host_info h, headers = make_headers s\<rparr>"
  using posts_retry_loop
    [of "\<lparr>url = u, body = host_info h, headers = make_headers s\<rparr>" retry_intervals 0 outs]
  by (auto simp add: fetch_configuration_def)

subsection \<open>Rounds that answer 303\<close>

lemma retry_loop_waiting:
  "enat (retries + length bs) \<le> max_retries \<Longrightarrow>
   retry_loop req ((interval, max_retries) # phases) retries (map (Response 303) bs @ outs) =
     emit (concat (replicate (length bs)
             [Post req, Log INFO Waiting_while_Rewst_processes, Sleep interval]))
       (retry_loop req ((interval, max_retries) # phases) (retries + length bs) outs)"
proof (induction bs arbitrary: retries)
  case Nil
  show ?case by (cases "retry_loop req ((interval, max_retries) # phases) retries outs") simp
next
  case (Cons b bs)
  from Cons.prems have lt: "enat retries < max_retries"
    by (cases max_retries) auto
  from Cons.prems have le: "enat (Suc retries + length bs) \<le> max_retries" by simp
  show ?case
    using Cons.IH [OF le]
    by (cases "retry_loop req ((interval, max_retries) # phases) (Suc retries + length bs) outs")
       (simp add: retry_loop_fall_through [OF lt])
qed

lemma fetch_after_waiting:
  assumes "length bs < 12" and "set REQUIRED_KEYS \<subseteq> fst ` set kvs"
  shows "fetch_configuration h u s
           (map (Response 303) bs @
            Response 200 (Inr (JObj [(''configuration'', JObj kvs)])) # outs) =
         (Returned (JObj kvs),
          concat (replicate (length bs)
            [Post \<lparr>url = u, body = host_info h, headers = make_headers s\<rparr>,
             Log INFO Waiting_while_Rewst_processes, Sleep 5]) @
          [Post \<lparr>url = u, body = host_info h, headers = make_headers s\<rparr>])"
proof -
  from assms(1) have le: "enat (0 + length bs) \<le> 12" and lt: "enat (0 + length bs) < 12"
    by (simp_all add: numeral_eq_enat)
  show ?thesis
    unfolding fetch_configuration_def retry_intervals_def
    by (simp only: retry_loop_waiting [OF le]
          retry_loop_return [OF lt attempt_valid [OF assms(2)]] emit.simps)
qed

subsection \<open>The loop does not run out of phases\<close>




section \<open>Properties of the store\<close>

declare os_makedirs.simps [simp del]

lemma extends_refl [simp]: "extends w w"
  by (simp add: extends_def)

lemma extends_trans: "extends w w' \<Longrightarrow> extends w' w'' \<Longrightarrow> extends w w''"
  by (simp add: extends_def)

lemma extends_logging [simp]: "extends w (logging l m w)"
  by (simp add: extends_def logging_def)

lemma lookup_None_nodes: "lookup w cs = Inr None \<Longrightarrow> nodes w cs = None"
  by (auto simp add: lookup_def node_at_def split: option.splits if_splits)

lemma extends_mkdir: "extends w (snd (os_mkdir w cs))"
  by (auto simp add: os_mkdir_def extends_def split: sum.splits option.splits
        dest: lookup_None_nodes)

lemma extends_makedirs: "extends w (snd (os_makedirs w cs))"
proof (induction w cs rule: os_makedirs.induct)
  case (1 w cs)
  show ?case
  proof (cases "cs \<noteq> [] \<and> \<not> exists_at w (butlast cs)")
    case False
    then show ?thesis
      by (subst os_makedirs.simps) (auto simp add: extends_mkdir)
  next
    case True
    obtain r w' where r: "os_makedirs w (butlast cs) = (r, w')"
      by (cases "os_makedirs w (butlast cs)")
    from 1 [OF True] r have e: "extends w w'" by simp
    have m: "extends w' (snd (os_mkdir w' cs))" by (rule extends_mkdir)
    from True r e extends_trans [OF e m] show ?thesis
      by (subst os_makedirs.simps) (auto split: option.splits)
  qed
qed

lemma extends_get_config_file_path:
  "extends w (snd (get_config_file_path rt w org_id config_file))"
proof -
  have "\<And>cs e w'. os_makedirs w cs = (e, w') \<Longrightarrow> extends w w'"
    using extends_makedirs by (metis snd_conv)
  then show ?thesis
    by (auto simp add: get_config_file_path_def Let_def split: sum.splits option.splits prod.splits
          intro: extends_trans [OF _ extends_logging])
qed

lemma node_at_extends:
  "extends w w' \<Longrightarrow> node_at w cs = Some n \<Longrightarrow> node_at w' cs = Some n"
  by (auto simp add: node_at_def extends_def split: if_splits)

lemma traverse_extends:
  "extends w w' \<Longrightarrow> traverse w dir cs = None \<Longrightarrow> traverse w' dir cs = None"
proof (induction cs arbitrary: dir)
  case Nil
  show ?case by simp
next
  case (Cons c cs)
  from Cons.prems(2) have d: "node_at w dir = Some Dir" "\<not> denied w Searching dir"
      "traverse w (dir @ [c]) cs = None"
    by (auto split: option.splits node.splits if_splits)
  from node_at_extends [OF Cons.prems(1) d(1)] d(2) Cons.prems(1) Cons.IH [OF Cons.prems(1) d(3)]
  show ?case by (simp add: extends_def)
qed

lemma open_read_extends:
  assumes "extends w w'" and "open_read rt w p = Inr bytes"
  shows "open_read rt w' p = Inr bytes"
proof -
  let ?cs = "path_components rt p"
  from assms(2) have t: "traverse w [] ?cs = None" and n: "node_at w ?cs = Some (File bytes)"
    and r: "\<not> denied w Reading ?cs"
    by (auto simp add: open_read_def lookup_def Let_def
          split: option.splits sum.splits node.splits if_splits)
  from traverse_extends [OF assms(1) t] node_at_extends [OF assms(1) n] r assms(1)
  show ?thesis by (simp add: open_read_def lookup_def Let_def extends_def)
qed

lemma traverse_update:
  "length dir + length cs \<le> length ds \<Longrightarrow>
   traverse (w\<lparr>nodes := (nodes w)(ds \<mapsto> n)\<rparr>) dir cs = traverse w dir cs"
proof (induction cs arbitrary: dir)
  case Nil
  show ?case by simp
next
  case (Cons c cs)
  from Cons.prems have ne: "dir \<noteq> ds" by auto
  from Cons.prems have "length (dir @ [c]) + length cs \<le> length ds" by simp
  from Cons.IH [OF this]
  have ih: "traverse (w\<lparr>nodes := (nodes w)(ds \<mapsto> n)\<rparr>) (dir @ [c]) cs =
      traverse w (dir @ [c]) cs" .
  have na: "node_at (w\<lparr>nodes := (nodes w)(ds \<mapsto> n)\<rparr>) dir = node_at w dir"
    using ne by (simp add: node_at_def)
  show ?case
    unfolding traverse.simps na ih by simp
qed

lemma open_write_then_read:
  assumes "open_write rt w p = Inr w'"
  shows "open_read rt (json_dump rt v p w') p =
           (if denied w Reading (path_components rt p) then Inl PermissionError
            else Inr (json_dumps rt v))"
proof -
  let ?cs = "path_components rt p"
  from assms have t: "traverse w [] ?cs = None" and ne: "?cs \<noteq> []"
    and w': "w' = w\<lparr>nodes := (nodes w)(?cs \<mapsto> File [])\<rparr>"
    by (auto simp add: open_write_def lookup_def node_at_def Let_def
          split: option.splits sum.splits node.splits if_splits)
  have "traverse (w\<lparr>nodes := (nodes w)(?cs \<mapsto> File (json_dumps rt v))\<rparr>) [] ?cs = None"
    using t by (simp add: traverse_update)
  with ne show ?thesis
    unfolding w' by (simp add: open_read_def json_dump_def lookup_def node_at_def Let_def)
qed

lemma subscript_org_id:
  "set REQUIRED_KEYS \<subseteq> fst ` set kvs \<Longrightarrow>
   \<exists>v. map_of kvs ''rewst_org_id'' = Some v"
proof -
  assume "set REQUIRED_KEYS \<subseteq> fst ` set kvs"
  then have "''rewst_org_id'' \<in> fst ` set kvs" by (simp add: REQUIRED_KEYS_def)
  then have "map_of kvs ''rewst_org_id'' \<noteq> None" by (simp add: map_of_eq_None_iff)
  then show ?thesis by auto
qed

lemma decode_error_found [simp]: "decode_error m \<noteq> FileNotFoundError"
  by (cases m) simp_all

lemma except_FileNotFoundError_Inl:
  "except_FileNotFoundError (Inl e) = (if e = FileNotFoundError then Inr JNull else Inl e)"
  by (cases e) simp_all

subsection \<open>The samples\<close>

lemma sample_components:
  "path_components sample_runtime ''/etc/rewst_remote_agent/acme'' =
     [''etc'', ''rewst_remote_agent'', ''acme'']"
  "path_components sample_runtime ''/etc/rewst_remote_agent/acme/config.json'' =
     [''etc'', ''rewst_remote_agent'', ''acme'', ''config.json'']"
  by (simp_all add: sample_runtime_def)

lemma sample_makedirs:
  "os_makedirs etc_world [''etc'', ''rewst_remote_agent'', ''acme''] =
     (None, etc_world\<lparr>nodes := [[''etc''] \<mapsto> Dir, [''etc'', ''rewst_remote_agent''] \<mapsto> Dir,
                                [''etc'', ''rewst_remote_agent'', ''acme''] \<mapsto> Dir]\<rparr>)"
  by (simp add: os_makedirs.simps [of _ "[''etc'', ''rewst_remote_agent'', ''acme'']"]
        os_makedirs.simps [of _ "[''etc'', ''rewst_remote_agent'']"]
        os_mkdir_def exists_at_def lookup_def node_at_def etc_world_def)

lemma sample_resolution:
  "get_config_file_path sample_runtime etc_world (JStr ''acme'') None =
     (Inr ''/etc/rewst_remote_agent/acme/config.json'',
      \<lparr>nodes = [[''etc''] \<mapsto> Dir, [''etc'', ''rewst_remote_agent''] \<mapsto> Dir,
                [''etc'', ''rewst_remote_agent'', ''acme''] \<mapsto> Dir],
       denied = (\<lambda>a cs. False),
       logged = [(INFO, Config_File_Path ''/etc/rewst_remote_agent/acme/config.json'')]\<rparr>)"
proof -
  have d: "config_dir_of sample_runtime (JStr ''acme'') = Inr ''/etc/rewst_remote_agent/acme''"
    by (simp add: config_dir_of_def sample_runtime_def)
  have e: "\<not> os_path_exists sample_runtime etc_world ''/etc/rewst_remote_agent/acme''"
    by (simp add: os_path_exists_def sample_components exists_at_def lookup_def node_at_def
          etc_world_def)
  have j: "os_path_join sample_runtime [''/etc/rewst_remote_agent/acme'', ''config.json''] =
      ''/etc/rewst_remote_agent/acme/config.json''"
    by (simp add: sample_runtime_def posix_join_def)
  show ?thesis
    by (simp add: get_config_file_path_def d e j sample_components sample_makedirs Let_def
          logging_def)
       (simp add: etc_world_def)
qed

lemma sample_saved:
  "save_configuration sample_runtime etc_world (JObj sample_config) None =
     (Inr (), saved_world)"
proof -
  let ?p = "''/etc/rewst_remote_agent/acme/config.json''"
  let ?w = "\<lparr>nodes = [[''etc''] \<mapsto> Dir, [''etc'', ''rewst_remote_agent''] \<mapsto> Dir,
                      [''etc'', ''rewst_remote_agent'', ''acme''] \<mapsto> Dir],
             denied = (\<lambda>a cs. False), logged = [(INFO, Config_File_Path ?p)]\<rparr>"
  have o: "py_subscript (JObj sample_config) ''rewst_org_id'' = Inr (JStr ''acme'')"
    by (simp add: sample_config_def)
  have r: "get_config_file_path sample_runtime etc_world (JStr ''acme'') None = (Inr ?p, ?w)"
    by (rule sample_resolution)
  have ow: "open_write sample_runtime ?w ?p =
      Inr (?w\<lparr>nodes := (nodes ?w)
              ([''etc'', ''rewst_remote_agent'', ''acme'', ''config.json''] \<mapsto> File [])\<rparr>)"
    by (simp add: open_write_def sample_components lookup_def node_at_def Let_def)
  have d: "json_dumps sample_runtime (JObj sample_config) = sample_text"
    by (simp add: sample_runtime_def)
  show ?thesis
    unfolding save_configuration_def
    by (simp only: o r ow sum.case prod.case)
       (simp add: json_dump_def sample_components d saved_world_def)
qed

lemma sample_resolution_again:
  "get_config_file_path sample_runtime saved_world (JStr ''acme'') None =
     (Inr ''/etc/rewst_remote_agent/acme/config.json'',
      logging INFO (Config_File_Path ''/etc/rewst_remote_agent/acme/config.json'')
        saved_world)"
proof -
  have d: "config_dir_of sample_runtime (JStr ''acme'') = Inr ''/etc/rewst_remote_agent/acme''"
    by (simp add: config_dir_of_def sample_runtime_def)
  have e: "os_path_exists sample_runtime saved_world ''/etc/rewst_remote_agent/acme''"
    by (simp add: os_path_exists_def sample_components exists_at_def lookup_def node_at_def
          saved_world_def)
  have j: "os_path_join sample_runtime [''/etc/rewst_remote_agent/acme'', ''config.json''] =
      ''/etc/rewst_remote_agent/acme/config.json''"
    by (simp add: sample_runtime_def posix_join_def)
  show ?thesis
    by (simp add: get_config_file_path_def d e j Let_def)
qed

section \<open>The claims\<close>

text \<open>
  Claim C1, as amended. At any round of the loop that still has attempts left, a
  request that times out or fails in transport is logged as a warning and counted; the
  handler ends the round with \<^verbatim>\<open>continue\<close>, so the next round starts at once and no
  sleep lies between this request and the next.
\<close>

theorem transport_failure_retries_at_once:
  "enat retries < max_retries \<Longrightarrow> out = TimeoutException \<or> out = RequestError e \<Longrightarrow>
   retry_loop req ((interval, max_retries) # phases) retries (out # outs) =
     emit [Post req,
           Log WARNING (if out = TimeoutException then Request_timed_out (Suc retries)
                        else Network_error (Suc retries) e)]
       (retry_loop req ((interval, max_retries) # phases) (Suc retries) outs)"
  by (auto simp add: retry_loop_continue)

theorem transport_failure_retries_at_once_witness:
  "enat 0 < 12 \<and> (TimeoutException = TimeoutException \<or> TimeoutException = RequestError []) \<and>
   retry_loop (sample_request None) retry_intervals 0 [TimeoutException, Response 303 (Inl Not_JSON)] =
     (Pending,
      [Post (sample_request None), Log WARNING (Request_timed_out 1),
       Post (sample_request None), Log INFO Waiting_while_Rewst_processes, Sleep 5,
       Post (sample_request None)])"
proof -
  have lt: "enat 0 < 12" by simp
  have out: "TimeoutException = TimeoutException \<or> TimeoutException = RequestError []" by simp
  show ?thesis
    using lt transport_failure_retries_at_once
      [OF lt out, of "sample_request None" 5 "[(60, 60), (300, \<infinity>)]" "[Response 303 (Inl Not_JSON)]"]
    by (simp add: retry_intervals_def retry_loop_fall_through retry_loop_pending)
qed

text \<open>
  Claim C1 as it is stated fails: after a timeout and after a connection error the next
  request follows the warning directly, and the trace holds no sleep.
\<close>

theorem transport_failure_sleep_counterexample:
  "snd (fetch_configuration sample_host ''https://engine.example/hook'' None
          [TimeoutException, RequestError ''connection refused'']) =
     [Post (sample_request None), Log WARNING (Request_timed_out 1),
      Post (sample_request None), Log WARNING (Network_error 2 ''connection refused''),
      Post (sample_request None)]"
  by (simp add: fetch_configuration_def retry_intervals_def sample_request_def
        retry_loop_continue retry_loop_pending)

text \<open>
  Claim C2. When the first answer has status 200 and the body
  \<^verbatim>\<open>{"configuration": D}\<close> with a dictionary \<open>D\<close> holding every required key, the call
  returns \<open>D\<close> itself, and all it has done is send one request: no log entry, no sleep,
  whatever the endpoint would have answered later.
\<close>

theorem first_success_returns_document:
  "set REQUIRED_KEYS \<subseteq> fst ` set kvs \<Longrightarrow>
   fetch_configuration h u s
     (Response 200 (Inr (JObj [(''configuration'', JObj kvs)])) # outs) =
   (Returned (JObj kvs), [Post \<lparr>url = u, body = host_info h, headers = make_headers s\<rparr>])"
  by (simp add: fetch_configuration_def retry_intervals_def
        retry_loop_return [OF _ attempt_valid])

theorem first_success_returns_document_witness:
  "set REQUIRED_KEYS \<subseteq> fst ` set sample_config \<and>
   fetch_configuration sample_host ''https://engine.example/hook'' (Some ''s3cret'')
     [Response 200 (Inr (JObj [(''configuration'', JObj sample_config)])), Response 500 (Inl Not_JSON)] =
   (Returned (JObj sample_config), [Post (sample_request (Some ''s3cret''))])"
proof -
  have k: "set REQUIRED_KEYS \<subseteq> fst ` set sample_config"
    by (simp add: REQUIRED_KEYS_def sample_config_def)
  show ?thesis
    using k first_success_returns_document
      [OF k, of sample_host "''https://engine.example/hook''" "Some ''s3cret''"
         "[Response 500 (Inl Not_JSON)]"]
    by (simp add: sample_request_def)
qed

text \<open>
  Claim C3, as amended. The JSON body of every request of a call has exactly the eleven
  keys \<^verbatim>\<open>agent_version\<close>, \<^verbatim>\<open>executable_path\<close>, \<^verbatim>\<open>hostname\<close>, \<^verbatim>\<open>mac_address\<close>,
  \<^verbatim>\<open>operating_system\<close>, \<^verbatim>\<open>cpu_model\<close>, \<^verbatim>\<open>ram_gb\<close>, \<^verbatim>\<open>is_ad_domain_controller\<close>,
  \<^verbatim>\<open>is_entra_connect_server\<close>, \<^verbatim>\<open>ad_domain\<close>, \<^verbatim>\<open>entra_domain\<close>, in this order; the last
  two are always present, with the value null when the domain is not available.
\<close>

theorem request_body_fields:
  "r \<in> set (posts (snd (fetch_configuration h u s outs))) \<Longrightarrow>
   map fst (body r) =
     [''agent_version'', ''executable_path'', ''hostname'', ''mac_address'',
      ''operating_system'', ''cpu_model'', ''ram_gb'', ''is_ad_domain_controller'',
      ''is_entra_connect_server'', ''ad_domain'', ''entra_domain''] \<and>
   map_of (body r) ''ad_domain'' =
     Some (case get_ad_domain_name h of None \<Rightarrow> JNull | Some d \<Rightarrow> JStr d) \<and>
   map_of (body r) ''entra_domain'' =
     Some (case get_entra_domain h of None \<Rightarrow> JNull | Some d \<Rightarrow> JStr d)"
  by (drule posts_fetch) (simp add: host_info_def split: option.splits)

theorem request_body_fields_witness:
  "sample_request None \<in>
     set (posts (snd (fetch_configuration sample_host ''https://engine.example/hook'' None []))) \<and>
   map fst (body (sample_request None)) =
     [''agent_version'', ''executable_path'', ''hostname'', ''mac_address'',
      ''operating_system'', ''cpu_model'', ''ram_gb'', ''is_ad_domain_controller'',
      ''is_entra_connect_server'', ''ad_domain'', ''entra_domain''] \<and>
   map_of (body (sample_request None)) ''ad_domain'' = Some JNull \<and>
   map_of (body (sample_request None)) ''entra_domain'' = Some JNull"
proof -
  have m: "sample_request None \<in>
     set (posts (snd (fetch_configuration sample_host ''https://engine.example/hook'' None [])))"
    by (simp add: fetch_configuration_def retry_intervals_def retry_loop_pending
          sample_request_def)
  have n: "get_ad_domain_name sample_host = None" "get_entra_domain sample_host = None"
    by (simp_all add: sample_host_def)
  show ?thesis using m n request_body_fields [OF m] by simp
qed

text \<open>
  Claim C3 as it is stated fails: on a host outside any domain the body carries
  \<^verbatim>\<open>operating_system\<close> and \<^verbatim>\<open>is_ad_domain_controller\<close>, not \<^verbatim>\<open>os_description\<close> and
  \<^verbatim>\<open>is_domain_controller\<close>, and it carries \<^verbatim>\<open>ad_domain\<close> and \<^verbatim>\<open>entra_domain\<close> with
  the value null.
\<close>

theorem host_descriptor_fields_counterexample:
  "posts (snd (fetch_configuration sample_host ''https://engine.example/hook'' None [])) =
     [\<lparr>url = ''https://engine.example/hook'',
       body =
         [(''agent_version'', JStr ''0.9.1''), (''executable_path'', JStr ''/usr/bin/python3''),
          (''hostname'', JStr ''build-07''), (''mac_address'', JStr ''0242ac110002''),
          (''operating_system'', JStr ''Linux-6.1-x86_64''), (''cpu_model'', JStr ''x86_64''),
          (''ram_gb'', JFloat 8), (''is_ad_domain_controller'', JBool False),
          (''is_entra_connect_server'', JBool False),
          (''ad_domain'', JNull), (''entra_domain'', JNull)],
       headers = []\<rparr>]"
  by (simp add: fetch_configuration_def retry_intervals_def retry_loop_pending host_info_def
        sample_host_def make_headers_def)

text \<open>
  Claim C4. When the endpoint answers 303 to the first \<open>N\<close> requests, \<open>N < 12\<close>, and
  then 200 with a valid configuration \<open>D\<close>, the call returns \<open>D\<close> after \<open>N + 1\<close>
  requests and \<open>N\<close> sleeps of 5 seconds each, and it never logs a move to the next
  phase.
\<close>

theorem success_after_waiting:
  assumes "length bs < 12" and "set REQUIRED_KEYS \<subseteq> fst ` set kvs"
  shows "case fetch_configuration h u s
                (map (Response 303) bs @
                 Response 200 (Inr (JObj [(''configuration'', JObj kvs)])) # outs) of
           (st, evs) \<Rightarrow>
             st = Returned (JObj kvs) \<and>
             length (posts evs) = length bs + 1 \<and>
             sleeps evs = replicate (length bs) 5 \<and>
             phase_moves evs = 0"
  by (simp add: fetch_after_waiting [OF assms] posts_rounds sleeps_rounds phase_moves_rounds)

theorem success_after_waiting_witness:
  "length [Inl Not_JSON, Inl Not_UTF8, Inr JNull] < (12::nat) \<and>
   set REQUIRED_KEYS \<subseteq> fst ` set sample_config \<and>
   (case fetch_configuration sample_host ''https://engine.example/hook'' None
           (map (Response 303) [Inl Not_JSON, Inl Not_UTF8, Inr JNull] @
            Response 200 (Inr (JObj [(''configuration'', JObj sample_config)])) #
            [TimeoutException]) of
      (st, evs) \<Rightarrow>
        st = Returned (JObj sample_config) \<and>
        length (posts evs) = length [Inl Not_JSON, Inl Not_UTF8, Inr JNull] + 1 \<and>
        sleeps evs = replicate (length [Inl Not_JSON, Inl Not_UTF8, Inr JNull]) 5 \<and>
        phase_moves evs = 0)"
proof -
  have n: "length [Inl Not_JSON, Inl Not_UTF8, Inr JNull] < (12::nat)" by simp
  have k: "set REQUIRED_KEYS \<subseteq> fst ` set sample_config"
    by (simp add: REQUIRED_KEYS_def sample_config_def)
  show ?thesis
    using n k success_after_waiting
      [OF n k, of sample_host "''https://engine.example/hook''" None "[TimeoutException]"]
    by blast
qed




text \<open>
  Claim C6. At any round of the loop that still has attempts left, an answer with status
  400 or 401 is logged as an error; the call neither returns nor raises, sleeps the
  interval of the phase as after the other answers that are not a success, and goes on
  with the next round of the schedule.
\<close>

theorem not_authorized_is_retried:
  "enat retries < max_retries \<Longrightarrow> status_code = 400 \<or> status_code = 401 \<Longrightarrow>
   retry_loop req ((interval, max_retries) # phases) retries
     (Response status_code js # outs) =
     emit [Post req, Log ERROR (Not_authorized (Suc retries)), Sleep interval]
       (retry_loop req ((interval, max_retries) # phases) (Suc retries) outs)"
  by (auto simp add: retry_loop_fall_through)

theorem not_authorized_is_retried_witness:
  "enat 0 < 12 \<and> ((401::int) = 400 \<or> (401::int) = 401) \<and>
   retry_loop (sample_request None) retry_intervals 0 [Response 401 (Inl Not_JSON)] =
     (Pending,
      [Post (sample_request None), Log ERROR (Not_authorized 1), Sleep 5,
       Post (sample_request None)])"
proof -
  have lt: "enat 0 < 12" by simp
  have st: "(401::int) = 400 \<or> (401::int) = 401" by simp
  show ?thesis
    using lt not_authorized_is_retried
      [OF lt st, of "sample_request None" 5 "[(60, 60), (300, \<infinity>)]" "Inl Not_JSON" "[]"]
    by (simp add: retry_intervals_def retry_loop_pending)
qed

text \<open>
  Claim C7, as amended. Once the path is resolved, \<^verbatim>\<open>load_configuration\<close> returns
  \<^verbatim>\<open>None\<close> exactly when \<^verbatim>\<open>open\<close> reports the path as missing (the entry, or a
  directory on the way to it, does not exist) or the file is readable and its bytes are
  the JSON text \<^verbatim>\<open>null\<close>. Every other failure passes on as an error: a path that leads
  through a regular file, a directory that may not be searched, a directory at the path,
  a file that may not be read, bytes that do not decode. A readable file that decodes
  yields its value.
\<close>

theorem load_absent_or_error:
  assumes "get_config_file_path rt w org_id config_file = (Inr p, w')"
  shows "fst (load_configuration rt w org_id config_file) =
           (case lookup w' (path_components rt p) of
              Inl e \<Rightarrow> if e = FileNotFoundError then Inr JNull else Inl e
            | Inr None \<Rightarrow> Inr JNull
            | Inr (Some Dir) \<Rightarrow> Inl IsADirectoryError
            | Inr (Some (File bytes)) \<Rightarrow>
                if denied w' Reading (path_components rt p) then Inl PermissionError
                else (case json_loads rt bytes of
                        Inl m \<Rightarrow> Inl (decode_error m)
                      | Inr v \<Rightarrow> Inr v)) \<and>
         (fst (load_configuration rt w org_id config_file) = Inr JNull \<longleftrightarrow>
            open_read rt w' p = Inl FileNotFoundError \<or>
            (\<exists>bytes. open_read rt w' p = Inr bytes \<and> json_loads rt bytes = Inr JNull))"
  using assms
  by (auto simp add: load_configuration_def open_read_def json_load_def Let_def
        except_FileNotFoundError_Inl
      split: option.splits node.splits sum.splits)

theorem load_absent_or_error_witness:
  "get_config_file_path sample_runtime etc_world (JStr ''acme'') None =
     (Inr ''/etc/rewst_remote_agent/acme/config.json'',
      \<lparr>nodes = [[''etc''] \<mapsto> Dir, [''etc'', ''rewst_remote_agent''] \<mapsto> Dir,
                [''etc'', ''rewst_remote_agent'', ''acme''] \<mapsto> Dir],
       denied = (\<lambda>a cs. False),
       logged = [(INFO, Config_File_Path ''/etc/rewst_remote_agent/acme/config.json'')]\<rparr>) \<and>
   fst (load_configuration sample_runtime etc_world (JStr ''acme'') None) = Inr JNull"
proof -
  have r: "get_config_file_path sample_runtime etc_world (JStr ''acme'') None =
     (Inr ''/etc/rewst_remote_agent/acme/config.json'',
      \<lparr>nodes = [[''etc''] \<mapsto> Dir, [''etc'', ''rewst_remote_agent''] \<mapsto> Dir,
                [''etc'', ''rewst_remote_agent'', ''acme''] \<mapsto> Dir],
       denied = (\<lambda>a cs. False),
       logged = [(INFO, Config_File_Path ''/etc/rewst_remote_agent/acme/config.json'')]\<rparr>)"
    by (simp add: sample_resolution)
  show ?thesis
    using r load_absent_or_error [OF r]
    by (simp add: lookup_def node_at_def sample_runtime_def)
qed

text \<open>
  Claim C7 as it is stated fails in both directions. A file exists at
  \<^verbatim>\<open>/tmp/config.json\<close>, its text is the JSON text \<^verbatim>\<open>null\<close>, and the result is the same
  \<^verbatim>\<open>None\<close> that stands for an absent file. Nothing exists at
  \<^verbatim>\<open>/tmp/blocker/config.json\<close>, since \<^verbatim>\<open>/tmp/blocker\<close> is a regular file, and the
  result is not \<^verbatim>\<open>None\<close> but the \<^verbatim>\<open>NotADirectoryError\<close> of \<^verbatim>\<open>open\<close>.
\<close>

theorem null_file_counterexample:
  "fst (load_configuration sample_runtime null_file_world JNull (Some ''/tmp/config.json'')) =
     Inr JNull \<and>
   nodes null_file_world [''tmp'', ''config.json''] = Some (File ''null'') \<and>
   fst (load_configuration sample_runtime null_file_world JNull
          (Some ''/tmp/blocker/config.json'')) = Inl NotADirectoryError \<and>
   nodes null_file_world [''tmp'', ''blocker'', ''config.json''] = None"
  by (simp add: load_configuration_def get_config_file_path_def open_read_def json_load_def
        lookup_def node_at_def null_file_world_def sample_runtime_def sample_text_def line_def)

text \<open>
  Claim C8. Let \<open>D\<close> be a document with every required key that is JSON-representable:
  \<^verbatim>\<open>json.load\<close> decodes the bytes that \<^verbatim>\<open>json.dump\<close> writes for \<open>D\<close> to \<open>D\<close>. When
  \<^verbatim>\<open>save_configuration\<close> has written \<open>D\<close> to the path \<open>p\<close> it resolved, from the
  override or from the organisation in \<open>D\<close>, then \<^verbatim>\<open>load_configuration\<close>, called with
  arguments that resolve to the same \<open>p\<close> on a file that may be read, returns \<open>D\<close>.
\<close>

theorem save_then_load:
  assumes keys: "set REQUIRED_KEYS \<subseteq> fst ` set kvs"
    and representable: "json_loads rt (json_dumps rt (JObj kvs)) = Inr (JObj kvs)"
    and saved: "save_configuration rt w (JObj kvs) config_file = (Inr (), w')"
    and save_path:
      "fst (get_config_file_path rt w (the (map_of kvs ''rewst_org_id'')) config_file) = Inr p"
    and load_path: "get_config_file_path rt w' org_id config_file' = (Inr p, w'')"
    and readable: "\<not> denied w' Reading (path_components rt p)"
  shows "load_configuration rt w' org_id config_file' = (Inr (JObj kvs), w'')"
proof -
  from subscript_org_id [OF keys] obtain v where v: "map_of kvs ''rewst_org_id'' = Some v" ..
  obtain w1 where p: "get_config_file_path rt w v config_file = (Inr p, w1)"
    using save_path v by (cases "get_config_file_path rt w v config_file") simp
  from saved v p obtain w2 where ow: "open_write rt w1 p = Inr w2"
    and w': "w' = json_dump rt (JObj kvs) p w2"
    by (auto simp add: save_configuration_def split: sum.splits)
  from ow have d: "denied w2 = denied w1"
    by (auto simp add: open_write_def Let_def
          split: sum.splits option.splits node.splits if_splits)
  from readable have "\<not> denied w1 Reading (path_components rt p)"
    unfolding w' using d by (simp add: json_dump_def)
  with open_write_then_read [OF ow, of "JObj kvs"]
  have "open_read rt w' p = Inr (json_dumps rt (JObj kvs))" unfolding w' by simp
  moreover from extends_get_config_file_path [of w' rt org_id config_file'] load_path
  have "extends w' w''" by simp
  ultimately have "open_read rt w'' p = Inr (json_dumps rt (JObj kvs))"
    by (rule open_read_extends [rotated])
  with load_path representable show ?thesis
    by (simp add: load_configuration_def json_load_def)
qed

theorem save_then_load_witness:
  "set REQUIRED_KEYS \<subseteq> fst ` set sample_config \<and>
   json_loads sample_runtime (json_dumps sample_runtime (JObj sample_config)) =
     Inr (JObj sample_config) \<and>
   save_configuration sample_runtime etc_world (JObj sample_config) None =
     (Inr (), saved_world) \<and>
   fst (get_config_file_path sample_runtime etc_world
          (the (map_of sample_config ''rewst_org_id'')) None) =
     Inr ''/etc/rewst_remote_agent/acme/config.json'' \<and>
   get_config_file_path sample_runtime saved_world (JStr ''acme'') None =
     (Inr ''/etc/rewst_remote_agent/acme/config.json'',
      logging INFO (Config_File_Path ''/etc/rewst_remote_agent/acme/config.json'')
        saved_world) \<and>
   \<not> denied saved_world Reading
       (path_components sample_runtime ''/etc/rewst_remote_agent/acme/config.json'') \<and>
   load_configuration sample_runtime saved_world (JStr ''acme'') None =
     (Inr (JObj sample_config),
      logging INFO (Config_File_Path ''/etc/rewst_remote_agent/acme/config.json'')
        saved_world)"
proof -
  have k: "set REQUIRED_KEYS \<subseteq> fst ` set sample_config"
    by (simp add: REQUIRED_KEYS_def sample_config_def)
  have j: "json_loads sample_runtime (json_dumps sample_runtime (JObj sample_config)) =
      Inr (JObj sample_config)"
    by (simp add: sample_runtime_def)
  have o: "the (map_of sample_config ''rewst_org_id'') = JStr ''acme''"
    by (simp add: sample_config_def)
  have sp: "fst (get_config_file_path sample_runtime etc_world
          (the (map_of sample_config ''rewst_org_id'')) None) =
     Inr ''/etc/rewst_remote_agent/acme/config.json''"
    by (simp add: o sample_resolution)
  have s: "save_configuration sample_runtime etc_world (JObj sample_config) None =
      (Inr (), saved_world)"
    by (rule sample_saved)
  have lp: "get_config_file_path sample_runtime saved_world (JStr ''acme'') None =
     (Inr ''/etc/rewst_remote_agent/acme/config.json'',
      logging INFO (Config_File_Path ''/etc/rewst_remote_agent/acme/config.json'')
        saved_world)"
    by (rule sample_resolution_again)
  have r: "\<not> denied saved_world Reading
       (path_components sample_runtime ''/etc/rewst_remote_agent/acme/config.json'')"
    by (simp add: saved_world_def)
  show ?thesis
    using k j s sp lp r save_then_load [OF k j s sp lp r] by simp
qed

text \<open>
  Claim C9, as amended. Every request of a call carries the header
  \<^verbatim>\<open>x-rewst-secret\<close>, with the secret as its value, exactly when a secret was given and
  is not the empty string.
\<close>

theorem secret_header_iff_nonempty:
  "r \<in> set (posts (snd (fetch_configuration h u secret outs))) \<Longrightarrow>
   map_of (headers r) ''x-rewst-secret'' =
     (case secret of None \<Rightarrow> None | Some s \<Rightarrow> if s = [] then None else Some s)"
  by (drule posts_fetch) (simp add: make_headers_def split: option.splits)

theorem secret_header_iff_nonempty_witness:
  "sample_request (Some ''s3cret'') \<in>
     set (posts (snd (fetch_configuration sample_host ''https://engine.example/hook''
                        (Some ''s3cret'') [Response 500 (Inl Not_JSON)]))) \<and>
   map_of (headers (sample_request (Some ''s3cret''))) ''x-rewst-secret'' = Some ''s3cret''"
proof -
  have m: "sample_request (Some ''s3cret'') \<in>
     set (posts (snd (fetch_configuration sample_host ''https://engine.example/hook''
                        (Some ''s3cret'') [Response 500 (Inl Not_JSON)])))"
    by (simp add: fetch_configuration_def retry_intervals_def retry_loop_pending
          retry_loop_fall_through sample_request_def)
  show ?thesis using m secret_header_iff_nonempty [OF m] by simp
qed

text \<open>
  Claim C9 as it is stated fails for the empty string: a call given the secret
  \<^verbatim>\<open>""\<close> sends its request with no header at all.
\<close>

theorem empty_secret_counterexample:
  "map headers
     (posts (snd (fetch_configuration sample_host ''https://engine.example/hook''
                    (Some []) []))) = [[]]"
  by (simp add: fetch_configuration_def retry_intervals_def retry_loop_pending
        make_headers_def)

text \<open>
  Claim C10. For a dictionary without the key \<^verbatim>\<open>rewst_org_id\<close>,
  \<^verbatim>\<open>save_configuration\<close> raises \<^verbatim>\<open>KeyError\<close> at its first statement, whatever path is
  or is not given; no path is resolved, no directory made, nothing logged and nothing
  written: the world is left as it was.
\<close>

theorem save_requires_org_id:
  "''rewst_org_id'' \<notin> fst ` set kvs \<Longrightarrow>
   save_configuration rt w (JObj kvs) config_file = (Inl (KeyError ''rewst_org_id''), w)"
  by (simp add: save_configuration_def map_of_eq_None_iff [THEN iffD2])

theorem save_requires_org_id_witness:
  "''rewst_org_id'' \<notin> fst ` set [(''device_id'', JStr ''dev-1'')] \<and>
   save_configuration sample_runtime empty_world (JObj [(''device_id'', JStr ''dev-1'')])
     (Some ''/tmp/config.json'') = (Inl (KeyError ''rewst_org_id''), empty_world)"
proof -
  have k: "''rewst_org_id'' \<notin> fst ` set [(''device_id'', JStr ''dev-1'')]" by simp
  show ?thesis
    using k save_requires_org_id [OF k, of sample_runtime empty_world "Some ''/tmp/config.json''"]
    by blast
qed

end
